theory Spec2Isabelle
  imports Main "HOL-Library.Sublist"
begin

section \<open>Exceptions and the backing store\<close>

text \<open>
  The exception classes of \<^verbatim>\<open>luiginlp/engine.py\<close> (lines 34-50) and the built-in
  ones its code raises or meets. Only \<^verbatim>\<open>InvalidInput\<close> carries its message, because
  the resolver builds a trace entry from \<^verbatim>\<open>str(e)\<close>.
\<close>

datatype error =
    InvalidInput string
  | MissingInput
  | EmptyDirectory string
  | AutoSetupError
  | SchedulingError
  | FileNotFoundError
  | AttributeError
  | TypeError
  | IndexError
  | OSError
  | PlainException

text \<open>
  The file system as the code reads it through \<^verbatim>\<open>os.path.exists\<close>, \<^verbatim>\<open>os.rename\<close>
  and \<^verbatim>\<open>os.makedirs\<close>: a tree without symbolic links. A node is found by its path,
  the list of names from the root; the store maps a path to nothing, a file or a
  directory, and holds the working directory of the process.
\<close>

type_synonym path = "string list"

datatype node = File | Dir

record filesystem =
  cwd :: path
  nodes :: "path \<Rightarrow> node option"

text \<open>\<^verbatim>\<open>s.split(c)\<close>: the pieces of a name between its separators.\<close>

fun split_on :: "char \<Rightarrow> string \<Rightarrow> string list" where
  "split_on c [] = [[]]"
| "split_on c (x # xs) =
     (if x = c then [] # split_on c xs
      else (case split_on c xs of [] \<Rightarrow> [[x]] | w # ws \<Rightarrow> (x # w) # ws))"

definition is_dir :: "filesystem \<Rightarrow> path \<Rightarrow> bool" where
  "is_dir fs p = (p = [] \<or> nodes fs p = Some Dir)"

text \<open>
  Name resolution, piece by piece: an empty piece and \<^verbatim>\<open>.\<close> stay, \<^verbatim>\<open>..\<close> steps up
  from a directory (and stays at the root), any other piece steps down. A name that
  starts with a slash is resolved from the root, any other from the working directory;
  the empty name resolves to nothing.
\<close>

fun walk :: "filesystem \<Rightarrow> path \<Rightarrow> string list \<Rightarrow> path option" where
  "walk fs cur [] = Some cur"
| "walk fs cur (c # cs) =
     (if c = [] \<or> c = ''.'' then walk fs cur cs
      else if c = ''..'' then (if is_dir fs cur then walk fs (butlast cur) cs else None)
      else walk fs (cur @ [c]) cs)"

definition locate :: "filesystem \<Rightarrow> string \<Rightarrow> path option" where
  "locate fs s =
     (case s of
        [] \<Rightarrow> None
      | c # _ \<Rightarrow> walk fs (if c = CHR ''/'' then [] else cwd fs) (split_on CHR ''/'' s))"

text \<open>The last piece of a name: empty when the name ends in a slash.\<close>

definition final :: "string \<Rightarrow> string" where
  "final s = last (split_on CHR ''/'' s)"

text \<open>
  \<^verbatim>\<open>os.path.exists\<close>. A name that ends in a slash, \<^verbatim>\<open>.\<close> or \<^verbatim>\<open>..\<close> must name a
  directory.
\<close>

definition exists :: "filesystem \<Rightarrow> string \<Rightarrow> bool" where
  "exists fs s =
     (case locate fs s of
        None \<Rightarrow> False
      | Some p \<Rightarrow>
          if final s \<in> {[], ''.'', ''..''} then is_dir fs p
          else p = [] \<or> nodes fs p \<noteq> None)"

section \<open>InputFormat (lines 78-115)\<close>

text \<open>
  \<^verbatim>\<open>str.endswith\<close>, and the slice \<^verbatim>\<open>s[:-n]\<close> for \<open>n > 0\<close> (it is empty when
  \<open>n\<close> exceeds the length, which truncating subtraction gives).
\<close>

definition endswith :: "string \<Rightarrow> string \<Rightarrow> bool" where
  "endswith s suf = (length suf \<le> length s \<and> drop (length s - length suf) s = suf)"

definition chop :: "string \<Rightarrow> nat \<Rightarrow> string" where
  "chop s n = take (length s - n) s"

record inputformat =
  valid :: bool
  format_id :: string
  directory :: bool
  basename :: "string option"
  extension :: "string option"

text \<open>The \<^verbatim>\<open>extension\<close> argument: one string, or a sequence of strings (lines 87-90).\<close>

datatype extension_arg = Str string | Strs "string list"

fun extensions_of :: "extension_arg \<Rightarrow> string list" where
  "extensions_of (Str e) = [e]"
| "extensions_of (Strs es) = es"

text \<open>
  Line 94: \<^verbatim>\<open>if extension[0] == '.': extension = extension[1:]\<close>. Indexing an empty
  string raises \<^verbatim>\<open>IndexError\<close>.
\<close>

fun strip_dot :: "string \<Rightarrow> error + string" where
  "strip_dot [] = Inl IndexError"
| "strip_dot (c # cs) = Inr (if c = CHR ''.'' then cs else c # cs)"

text \<open>
  The loop of lines 93-101 over the declared extensions, for the value \<open>path\<close> of the
  workflow's input parameter. The first extension that matches (or any extension, under
  \<^verbatim>\<open>force\<close>) fixes basename and extension; the artifact must then exist, or the
  constructor raises \<^verbatim>\<open>FileNotFoundError\<close>.
\<close>

fun match_extensions ::
  "filesystem \<Rightarrow> string \<Rightarrow> bool \<Rightarrow> string list \<Rightarrow> inputformat \<Rightarrow> error + inputformat" where
  "match_extensions fs path force [] self = Inr self"
| "match_extensions fs path force (e # es) self =
     (case strip_dot e of
        Inl err \<Rightarrow> Inl err
      | Inr ext \<Rightarrow>
          if endswith path (''.'' @ ext) \<or> force then
            (let b = chop path (length ext + 1) in
             if \<not> exists fs (b @ ''.'' @ ext) then Inl FileNotFoundError
             else Inr (self\<lparr>basename := Some b, extension := Some ext, valid := True\<rparr>))
          else match_extensions fs path force es self)"

text \<open>
  \<^verbatim>\<open>InputFormat.__init__\<close>. The workflow is read through its attributes only
  (\<^verbatim>\<open>hasattr\<close>, \<^verbatim>\<open>getattr\<close>): \<open>attrs\<close> maps an attribute name to its string value.
\<close>

definition InputFormat_init ::
  "(string \<Rightarrow> string option) \<Rightarrow> filesystem \<Rightarrow> string \<Rightarrow> extension_arg \<Rightarrow> string \<Rightarrow> bool \<Rightarrow> bool
     \<Rightarrow> error + inputformat" where
  "InputFormat_init attrs fs fid ext inputparameter dir force =
     (let self = \<lparr>valid = False, format_id = fid, directory = dir,
                  basename = None, extension = None\<rparr>
      in case attrs inputparameter of
           None \<Rightarrow> Inl AttributeError
         | Some path \<Rightarrow> match_extensions fs path force (extensions_of ext) self)"

text \<open>The declared extension as it is compared: without its leading dot.\<close>

definition undot :: "string \<Rightarrow> string" where
  "undot e = (case e of [] \<Rightarrow> [] | c # cs \<Rightarrow> if c = CHR ''.'' then cs else c # cs)"

section \<open>Tasks, output slots and slot feeds\<close>

text \<open>
  \<^verbatim>\<open>InputFormat.task\<close> (lines 111-115) creates the \<^verbatim>\<open>InputTask\<close> named
  \<^verbatim>\<open>'inputtask_' + format_id\<close> (lines 65-74); an invalid format raises a plain
  \<^verbatim>\<open>Exception\<close>. Reading \<^verbatim>\<open>self.basename\<close> of an object that never set it would
  raise \<^verbatim>\<open>AttributeError\<close>.
\<close>

record inputtask =
  task_name :: string
  it_format_id :: string
  it_basename :: string
  it_extension :: string
  it_directory :: bool

definition InputFormat_task :: "inputformat \<Rightarrow> error + inputtask" where
  "InputFormat_task self =
     (if valid self then
        (case (basename self, extension self) of
           (Some b, Some e) \<Rightarrow>
             Inr \<lparr>task_name = ''inputtask_'' @ format_id self, it_format_id = format_id self,
                  it_basename = b, it_extension = e, it_directory = directory self\<rparr>
         | _ \<Rightarrow> Inl AttributeError)
      else Inl PlainException)"

text \<open>The path of \<^verbatim>\<open>InputTask.out_default\<close> (line 74).\<close>

definition out_default_path :: "inputtask \<Rightarrow> string" where
  "out_default_path t = it_basename t @ ''.'' @ it_extension t"

text \<open>
  A task returned by a component's \<^verbatim>\<open>setup\<close>, as the resolver reads it: its instance
  name and \<^verbatim>\<open>dir(task)\<close>, the attribute names in the order \<^verbatim>\<open>dir\<close> lists them.
\<close>

record task =
  instance_name :: string
  dir_names :: "string list"

text \<open>
  An output slot handle is a bound method: \<^verbatim>\<open>out_default\<close> of a source task, or
  \<^verbatim>\<open>getattr(inputtask, attrname)\<close> of a task (instance name, attribute name).
\<close>

datatype slot = SourceSlot inputtask | OutSlot string string

text \<open>
  A feed is a Python \<^verbatim>\<open>dict\<close> from format-id to one slot or a list of slots; the
  association list keeps the insertion order of the keys.
\<close>

datatype binding = Scalar slot | Many "slot list"

type_synonym feed = "(string \<times> binding) list"

fun setitem :: "string \<Rightarrow> binding \<Rightarrow> feed \<Rightarrow> feed" where
  "setitem k v [] = [(k, v)]"
| "setitem k v ((k', v') # kvs) =
     (if k = k' then (k, v) # kvs else (k', v') # setitem k v kvs)"

text \<open>Lines 256-263: one \<^verbatim>\<open>out_\<close> attribute merged into the feed.\<close>

definition merge_slot :: "string \<Rightarrow> slot \<Rightarrow> feed \<Rightarrow> feed" where
  "merge_slot fid s feed =
     (case map_of feed fid of
        Some (Many ss) \<Rightarrow> setitem fid (Many (ss @ [s])) feed
      | Some (Scalar s0) \<Rightarrow> setitem fid (Many [s0, s]) feed
      | None \<Rightarrow> setitem fid (Scalar s) feed)"

text \<open>Lines 254-263: the loop over \<^verbatim>\<open>dir(inputtask)\<close>.\<close>

fun merge_attrs :: "string \<Rightarrow> string list \<Rightarrow> feed \<Rightarrow> feed" where
  "merge_attrs name [] feed = feed"
| "merge_attrs name (attrname # rest) feed =
     merge_attrs name rest
       (if take 4 attrname = ''out_''
        then merge_slot (drop 4 attrname) (OutSlot name attrname) feed
        else feed)"

text \<open>
  What \<^verbatim>\<open>setup\<close> returns: one object or a sequence of objects, each a \<^verbatim>\<open>Task\<close> or
  not. Line 250 wraps a single \<^verbatim>\<open>Task\<close>; a single object that is no \<^verbatim>\<open>Task\<close> is
  taken to be one that cannot be iterated (such as \<^verbatim>\<open>None\<close>), a \<^verbatim>\<open>TypeError\<close>.
\<close>

datatype pyobj = ATask task | NotATask

datatype setup_result = One pyobj | Sequence "pyobj list"

fun as_tasks :: "setup_result \<Rightarrow> error + pyobj list" where
  "as_tasks (One (ATask t)) = Inr [ATask t]"
| "as_tasks (One NotATask) = Inl TypeError"
| "as_tasks (Sequence os) = Inr os"

text \<open>Lines 251-263: the loop over the returned tasks.\<close>

fun merge_tasks :: "pyobj list \<Rightarrow> feed \<Rightarrow> error + feed" where
  "merge_tasks [] feed = Inr feed"
| "merge_tasks (NotATask # os) feed = Inl TypeError"
| "merge_tasks (ATask t # os) feed =
     merge_tasks os (merge_attrs (instance_name t) (dir_names t) feed)"

section \<open>Components and their acceptance rules\<close>

text \<open>
  A component instance, as \<^verbatim>\<open>setup_input\<close> reads it: its class name, the parameters
  \<^verbatim>\<open>startcomponent\<close> and \<^verbatim>\<open>inputslot\<close>, its \<^verbatim>\<open>inputfile\<close> when it has that
  attribute, and its two overridable methods \<^verbatim>\<open>accepts\<close> and \<^verbatim>\<open>setup\<close> (\<open>setup_of\<close>), which are
  client code: \<open>accepts\<close> is what the call returns or raises, \<open>setup_of\<close> maps the resolved
  feed to what the call returns or raises.

  An element of an acceptance tuple is an \<^verbatim>\<open>InputFormat\<close>, an \<^verbatim>\<open>InputComponent\<close>
  (given by the instance that \<^verbatim>\<open>input.Class(*input.args, **input.kwargs)\<close> constructs),
  a bare component class (by its name), or anything else. A value of this type is a
  finite tree, so the model covers the resolutions whose chain of sub-components ends.
\<close>

datatype component =
  Component (cname: string) (startcomponent: string) (inputslot: string)
    (inputfile: "string option") (accepts: accepts_result)
    (setup_of: "feed \<Rightarrow> error + setup_result")
and accepts_result = Raises error | ReturnsOne item | ReturnsSeq "entry list"
and entry = EItem item | ETuple "item list"
and item = IFormat inputformat | IComponent component | IClass string | IOther

text \<open>Lines 210-211 and 214: a value that is no sequence is wrapped in a 1-tuple.\<close>

fun as_sequence :: "accepts_result \<Rightarrow> error + entry list" where
  "as_sequence (Raises e) = Inl e"
| "as_sequence (ReturnsOne i) = Inr [EItem i]"
| "as_sequence (ReturnsSeq es) = Inr es"

fun as_tuple :: "entry \<Rightarrow> item list" where
  "as_tuple (EItem i) = [i]"
| "as_tuple (ETuple items) = items"

subsection \<open>The class attribute \<^verbatim>\<open>accepted_components\<close> (lines 125, 156-160)\<close>

text \<open>
  \<^verbatim>\<open>accepted_components = []\<close> is an attribute of the class \<^verbatim>\<open>WorkflowComponent\<close>:
  one list object, found by every subclass that does not bind the name itself. The
  store maps a class to its method resolution order, a class to the address of the list
  its own \<^verbatim>\<open>__dict__\<close> binds to the name (if any), and an address to the list's
  elements, classes given by name.
\<close>

record classes =
  mro :: "string \<Rightarrow> string list"
  class_dict :: "string \<Rightarrow> nat option"
  heap :: "nat \<Rightarrow> string list"

fun defining_class :: "(string \<Rightarrow> nat option) \<Rightarrow> string list \<Rightarrow> string option" where
  "defining_class d [] = None"
| "defining_class d (k # ks) = (if d k \<noteq> None then Some k else defining_class d ks)"

definition attr_ref :: "classes \<Rightarrow> string \<Rightarrow> nat option" where
  "attr_ref st cls =
     (case defining_class (class_dict st) (mro st cls) of
        None \<Rightarrow> None
      | Some k \<Rightarrow> class_dict st k)"

definition accepted_components :: "classes \<Rightarrow> string \<Rightarrow> error + string list" where
  "accepted_components st cls =
     (case attr_ref st cls of None \<Rightarrow> Inl AttributeError | Some a \<Rightarrow> Inr (heap st a))"

text \<open>\<^verbatim>\<open>WorkflowComponent.accept\<close>: append in place what the list does not hold yet.\<close>

fun accept :: "classes \<Rightarrow> string \<Rightarrow> string list \<Rightarrow> error + classes" where
  "accept st cls [] = Inr st"
| "accept st cls (child # children) =
     (case attr_ref st cls of
        None \<Rightarrow> Inl AttributeError
      | Some a \<Rightarrow>
          accept
            (if child \<in> set (heap st a) then st
             else st\<lparr>heap := (heap st)(a := heap st a @ [child])\<rparr>)
            cls children)"

text \<open>
  Line 212: \<^verbatim>\<open>itertools.chain(accepts, self.accepted_components)\<close>, every element
  as the tuple line 214 makes of it.
\<close>

definition alternatives :: "classes \<Rightarrow> component \<Rightarrow> error + item list list" where
  "alternatives st self =
     (case as_sequence (accepts self) of
        Inl e \<Rightarrow> Inl e
      | Inr es \<Rightarrow>
          (case accepted_components st (cname self) of
             Inl e \<Rightarrow> Inl e
           | Inr ks \<Rightarrow> Inr (map as_tuple es @ map (\<lambda>k. [IClass k]) ks)))"

section \<open>The chain resolver\<close>

text \<open>
  The number of component instances in a value: the measure under which the resolver's
  recursion ends. A bare class counts nothing, since line 234 fails before any
  instance of it is resolved.
\<close>

primrec w_component :: "component \<Rightarrow> nat"
  and w_accepts :: "accepts_result \<Rightarrow> nat"
  and w_entry :: "entry \<Rightarrow> nat"
  and w_item :: "item \<Rightarrow> nat" where
  "w_component (Component n sc sl ifile acc su) = Suc (w_accepts acc)"
| "w_accepts (Raises e) = 0"
| "w_accepts (ReturnsOne i) = w_item i"
| "w_accepts (ReturnsSeq es) = sum_list (map w_entry es)"
| "w_entry (EItem i) = w_item i"
| "w_entry (ETuple items) = sum_list (map w_item items)"
| "w_item (IFormat f) = 0"
| "w_item (IComponent c) = w_component c"
| "w_item (IClass k) = 0"
| "w_item IOther = 0"

definition w_group :: "item list \<Rightarrow> nat" where
  "w_group g = sum_list (map w_item g)"

definition w_groups :: "item list list \<Rightarrow> nat" where
  "w_groups gs = sum_list (map w_group gs)"

text \<open>The alternatives of a component weigh less than the component.\<close>

lemma w_entry_as_tuple: "w_group (as_tuple e) = w_entry e"
  by (cases e) (simp_all add: w_group_def)

lemma w_alternatives:
  "alternatives st self = Inr gs \<Longrightarrow> w_groups gs < w_component self"
proof -
  assume a: "alternatives st self = Inr gs"
  obtain n sc sl ifile acc su where s: "self = Component n sc sl ifile acc su"
    by (cases self)
  have k: "sum_list (map (w_group \<circ> (\<lambda>k. [IClass k])) ks) = 0" for ks
    by (induction ks) (simp_all add: w_group_def)
  have e: "sum_list (map (w_group \<circ> as_tuple) es) = sum_list (map w_entry es)" for es
    by (induction es) (simp_all add: w_entry_as_tuple)
  have o: "w_group [i] = w_item i" for i
    by (simp add: w_group_def)
  from a s show ?thesis
    by (cases acc)
       (auto simp: alternatives_def w_groups_def k e o
             split: sum.splits)
qed

text \<open>How the loop over one tuple ended: it ran out of elements, or hit \<^verbatim>\<open>break\<close>.\<close>

datatype loop_exit = Exhausted | Break

text \<open>Lines 207-209: the trace starts with the input file, when the component has one.\<close>

definition initial_log :: "component \<Rightarrow> string list" where
  "initial_log self = (case inputfile self of None \<Rightarrow> [] | Some f \<Rightarrow> [''inputfile='' @ f])"

text \<open>\<^verbatim>\<open>sep.join(xs)\<close>.\<close>

fun join :: "string \<Rightarrow> string list \<Rightarrow> string" where
  "join sep [] = []"
| "join sep [x] = x"
| "join sep (x # y # ys) = x @ sep @ join sep (y # ys)"

text \<open>
  The entries of the trace \<^verbatim>\<open>inputlog\<close> (lines 218, 221, 226, 243) and the message of
  the final \<^verbatim>\<open>InvalidInput\<close> (line 272).
\<close>

definition skipped_entry :: "string \<Rightarrow> string \<Rightarrow> string" where
  "skipped_entry cls fid =
     ''startcomponent does not match '' @ cls @ '', skipping InputFormat '' @ fid"

definition matches_entry :: "string \<Rightarrow> string" where
  "matches_entry fid = ''InputFormat '' @ fid @ '' matches!''"

definition no_match_entry :: "string \<Rightarrow> string \<Rightarrow> string" where
  "no_match_entry fid slot =
     ''InputFormat '' @ fid @ '' does not match (inputslot='' @ slot @ '')''"

definition tried_entry :: "string \<Rightarrow> string \<Rightarrow> string" where
  "tried_entry cls msg =
     ''(Tried workflow '' @ cls @ '' in accept chain, does not handle provided input: ''
       @ msg @ '')''"

definition no_entry_point :: "string list \<Rightarrow> string" where
  "no_entry_point log =
     ''Unable to find an entry point for supplied input: '' @ join ''; '' log"

text \<open>\<^verbatim>\<open>except InvalidInput as e\<close>: the one exception class caught, and \<^verbatim>\<open>str(e)\<close>.\<close>

fun invalid_message :: "error \<Rightarrow> string option" where
  "invalid_message (InvalidInput msg) = Some msg"
| "invalid_message e = None"

text \<open>
  \<^verbatim>\<open>WorkflowComponent.setup_input\<close> (lines 203-272). \<open>setup_input\<close> is the method,
  \<open>try_groups\<close> the loop of line 212 over the acceptance tuples with the trace so far,
  \<open>run_items\<close> the loop of line 215 over one tuple with the feed and the trace so far.
  \<open>run_items\<close> returns the feed and the trace as the loop leaves them, whether it ended
  by exhaustion or by \<^verbatim>\<open>break\<close>; line 267 then reads the feed only. The
  \<^verbatim>\<open>workflow\<close> argument only registers the new source task with the engine and is
  left out. A bare class reaches line 234, where \<^verbatim>\<open>input.args\<close> is read off the
  class object itself: an \<^verbatim>\<open>AttributeError\<close>, no class of the engine having such an
  attribute.
\<close>

function setup_input :: "classes \<Rightarrow> component \<Rightarrow> error + feed"
  and try_groups :: "classes \<Rightarrow> component \<Rightarrow> item list list \<Rightarrow> string list \<Rightarrow> error + feed"
  and run_items ::
    "classes \<Rightarrow> component \<Rightarrow> item list \<Rightarrow> feed \<Rightarrow> string list
       \<Rightarrow> error + (feed \<times> string list \<times> loop_exit)"
where
  "setup_input st self =
     (case alternatives st self of
        Inl e \<Rightarrow> Inl e
      | Inr gs \<Rightarrow> try_groups st self gs (initial_log self))"
| "try_groups st self [] log = Inl (InvalidInput (no_entry_point log))"
| "try_groups st self (g # gs) log =
     (case run_items st self g [] log of
        Inl e \<Rightarrow> Inl e
      | Inr (input_feeds, log', x) \<Rightarrow>
          if length input_feeds > 0 then Inr input_feeds
          else try_groups st self gs log')"
| "run_items st self [] input_feeds log = Inr (input_feeds, log, Exhausted)"
| "run_items st self (IFormat f # rest) input_feeds log =
     (if startcomponent self \<noteq> [] \<and> startcomponent self \<noteq> cname self then
        Inr (input_feeds, log @ [skipped_entry (cname self) (format_id f)], Break)
      else if valid f \<and> (inputslot self = [] \<or> inputslot self = format_id f) then
        (case InputFormat_task f of
           Inl e \<Rightarrow> Inl e
         | Inr t \<Rightarrow>
             run_items st self rest
               (setitem (format_id f) (Scalar (SourceSlot t)) input_feeds)
               (log @ [matches_entry (format_id f)]))
      else
        Inr (input_feeds, log @ [no_match_entry (format_id f) (inputslot self)], Break))"
| "run_items st self (IComponent swf # rest) input_feeds log =
     (case (case setup_input st swf of
              Inl e \<Rightarrow> Inl e
            | Inr new_input_feeds \<Rightarrow> setup_of swf new_input_feeds) of
        Inl e \<Rightarrow>
          (case invalid_message e of
             Some msg \<Rightarrow>
               Inr (input_feeds, log @ [tried_entry (cname swf) msg], Break)
           | None \<Rightarrow> Inl e)
      | Inr inputtasks \<Rightarrow>
          (case as_tasks inputtasks of
             Inl e \<Rightarrow> Inl e
           | Inr ts \<Rightarrow>
               (case merge_tasks ts input_feeds of
                  Inl e \<Rightarrow> Inl e
                | Inr input_feeds' \<Rightarrow> run_items st self rest input_feeds' log)))"
| "run_items st self (IClass k # rest) input_feeds log = Inl AttributeError"
| "run_items st self (IOther # rest) input_feeds log = Inl TypeError"
  by pat_completeness auto
termination
  by (relation "inv_image (less_than <*lex*> less_than <*lex*> less_than)
        (\<lambda>x. case x of
           Inl (st, c) \<Rightarrow> (w_component c, 0::nat, 0::nat)
         | Inr (Inl (st, c, gs, log)) \<Rightarrow> (w_groups gs, 2, length gs)
         | Inr (Inr (st, c, g, feed, log)) \<Rightarrow> (w_group g, 1, length g))")
     (auto simp: w_groups_def w_group_def dest: w_alternatives)

section \<open>Parameter propagation (lines 52-63)\<close>

text \<open>
  \<^verbatim>\<open>InputComponent.__init__\<close>. \<open>class_dir\<close> is \<^verbatim>\<open>dir(Class)\<close> with, for each name,
  whether the attribute is a \<^verbatim>\<open>luigi.Parameter\<close>; \<open>parent\<close> maps an attribute name to
  the parent's value (\<^verbatim>\<open>hasattr\<close>, \<^verbatim>\<open>getattr\<close>); \<open>kwargs\<close> are the explicit
  overrides, updated in place by the loop.
\<close>

fun transfer ::
  "(string \<times> bool) list \<Rightarrow> (string \<Rightarrow> 'v option) \<Rightarrow> (string \<Rightarrow> 'v option) \<Rightarrow> (string \<Rightarrow> 'v option)" where
  "transfer [] parent kwargs = kwargs"
| "transfer ((key, is_parameter) # rest) parent kwargs =
     transfer rest parent
       (if is_parameter \<and> kwargs key = None \<and> parent key \<noteq> None
        then kwargs(key := parent key) else kwargs)"

record ('a, 'v) inputcomponent =
  ic_Class :: string
  ic_args :: "'a list"
  ic_kwargs :: "string \<Rightarrow> 'v option"

definition InputComponent_init ::
  "(string \<Rightarrow> 'v option) \<Rightarrow> string \<Rightarrow> (string \<times> bool) list \<Rightarrow> 'a list \<Rightarrow> (string \<Rightarrow> 'v option)
     \<Rightarrow> ('a, 'v) inputcomponent" where
  "InputComponent_init parentcomponent Class class_dir args kwargs =
     \<lparr>ic_Class = Class, ic_args = args,
      ic_kwargs = transfer class_dir parentcomponent kwargs\<rparr>"

section \<open>Task output directories (lines 298-343)\<close>

text \<open>
  \<^verbatim>\<open>os.rename\<close> with its POSIX outcomes. The root and a name that ends in \<^verbatim>\<open>.\<close> or
  \<^verbatim>\<open>..\<close> cannot be renamed; the source must exist and the target's parent must be a
  directory; a file is not named with a trailing slash; a name renamed to itself stays;
  a directory cannot move below itself. A free target takes the node, an empty
  directory is replaced by a directory and a file by a file, and every path below the
  source moves along; any other existing target is an \<^verbatim>\<open>OSError\<close>.
\<close>

definition rename :: "string \<Rightarrow> string \<Rightarrow> filesystem \<Rightarrow> error + filesystem" where
  "rename src dst fs =
     (case (locate fs src, locate fs dst) of
        (Some s, Some t) \<Rightarrow>
          if s = [] \<or> t = [] \<or> final src \<in> {''.'', ''..''} \<or> final dst \<in> {''.'', ''..''}
          then Inl OSError
          else
            (case nodes fs s of
               None \<Rightarrow> Inl FileNotFoundError
             | Some n \<Rightarrow>
                 if \<not> is_dir fs (butlast t) then Inl FileNotFoundError
                 else if n = File \<and> (final src = [] \<or> final dst = []) then Inl OSError
                 else if s = t then Inr fs
                 else if prefix s t then Inl OSError
                 else if nodes fs t = None
                      \<or> (n = Dir \<and> nodes fs t = Some Dir \<and> (\<forall>c. nodes fs (t @ [c]) = None))
                      \<or> (n = File \<and> nodes fs t = Some File)
                 then Inr (fs\<lparr>nodes := (\<lambda>p. if prefix t p then nodes fs (s @ drop (length t) p)
                                             else if prefix s p then None
                                             else nodes fs p)\<rparr>)
                 else Inl OSError)
      | _ \<Rightarrow> Inl FileNotFoundError)"

text \<open>
  \<^verbatim>\<open>os.makedirs\<close>: the leaf must not exist and no directory above it may be a file;
  the leaf and every missing directory above it are created.
\<close>

definition makedirs :: "string \<Rightarrow> filesystem \<Rightarrow> error + filesystem" where
  "makedirs d fs =
     (case locate fs d of
        None \<Rightarrow> Inl FileNotFoundError
      | Some p \<Rightarrow>
          if p = [] \<or> nodes fs p \<noteq> None then Inl OSError
          else if list_ex (\<lambda>q. nodes fs q = Some File) (prefixes p) then Inl OSError
          else Inr (fs\<lparr>nodes := (\<lambda>q. if prefix q p \<and> q \<noteq> [] \<and> nodes fs q = None
                                      then Some Dir else nodes fs q)\<rparr>))"

text \<open>
  The private attributes of a task: \<^verbatim>\<open>__output_dir\<close>, set by
  \<^verbatim>\<open>setup_output_dir\<close> only, and \<^verbatim>\<open>__output_dirs\<close>, which \<^verbatim>\<open>on_success\<close> reads
  and no line of the class assigns. \<open>None\<close> is an attribute that is not there.
\<close>

record task_state =
  output_dir :: "string list option"
  output_dirs :: "string list option"

definition new_task_state :: task_state where
  "new_task_state = \<lparr>output_dir = None, output_dirs = None\<rparr>"

definition setup_output_dir ::
  "task_state \<Rightarrow> string \<Rightarrow> filesystem \<Rightarrow> error + (task_state \<times> filesystem)" where
  "setup_output_dir self d fs =
     (case (if exists fs d then Inr fs
            else if exists fs (d @ ''.failed'') then rename (d @ ''.failed'') d fs
            else makedirs d fs) of
        Inl e \<Rightarrow> Inl e
      | Inr fs' \<Rightarrow>
          Inr (self\<lparr>output_dir :=
                       Some (case output_dir self of None \<Rightarrow> [d] | Some ds \<Rightarrow> ds @ [d])\<rparr>,
               fs'))"

text \<open>Lines 317-319: the loop of \<^verbatim>\<open>on_failure\<close> over the registered directories.\<close>

fun mark_failed :: "string list \<Rightarrow> filesystem \<Rightarrow> error + filesystem" where
  "mark_failed [] fs = Inr fs"
| "mark_failed (d # ds) fs =
     (if exists fs d then
        (case rename d (d @ ''.failed'') fs of
           Inl e \<Rightarrow> Inl e
         | Inr fs' \<Rightarrow> mark_failed ds fs')
      else mark_failed ds fs)"

text \<open>
  \<^verbatim>\<open>Task.on_failure\<close>, up to the call of the engine's own handler. A missing
  \<^verbatim>\<open>__output_dir\<close> is the \<^verbatim>\<open>AttributeError\<close> that line 320 catches.
\<close>

definition on_failure :: "task_state \<Rightarrow> filesystem \<Rightarrow> error + filesystem" where
  "on_failure self fs =
     (case output_dir self of
        None \<Rightarrow> Inr fs
      | Some ds \<Rightarrow> if ds \<noteq> [] then mark_failed ds fs else Inr fs)"

text \<open>
  \<^verbatim>\<open>Task.on_success\<close>, up to the logging of the outputs. Line 326 reads
  \<^verbatim>\<open>__output_dir\<close>; line 328 iterates \<^verbatim>\<open>__output_dirs\<close>, whose absence raises the
  \<^verbatim>\<open>AttributeError\<close> that line 337 catches. Were the attribute there and not
  empty, line 329 would hand the list \<^verbatim>\<open>__output_dir\<close> to \<^verbatim>\<open>os.path.exists\<close>, a
  \<^verbatim>\<open>TypeError\<close> in the first round of the loop; were it empty, \<^verbatim>\<open>failed\<close> stays
  empty and nothing is raised. Lines 330-334 are never reached.
\<close>

definition on_success :: "task_state \<Rightarrow> filesystem \<Rightarrow> error + filesystem" where
  "on_success self fs =
     (case output_dir self of
        None \<Rightarrow> Inr fs
      | Some ds \<Rightarrow>
          if ds \<noteq> [] then
            (case output_dirs self of
               None \<Rightarrow> Inr fs
             | Some dirs \<Rightarrow> if dirs = [] then Inr fs else Inl TypeError)
          else Inr fs)"

section \<open>Plain names and the effect of one pass of the failure handler\<close>

text \<open>
  A plain name has no piece \<^verbatim>\<open>..\<close> and ends in a proper name. Its place in the tree
  does not depend on what exists: the pieces that are neither empty nor \<^verbatim>\<open>.\<close>, below
  the root or the working directory \<open>c\<close>.
\<close>

definition parts :: "string \<Rightarrow> path" where
  "parts s = filter (\<lambda>c. c \<noteq> [] \<and> c \<noteq> ''.'') (split_on CHR ''/'' s)"

definition place :: "path \<Rightarrow> string \<Rightarrow> path" where
  "place c s = (if take 1 s = ''/'' then [] else c) @ parts s"

definition plain :: "string \<Rightarrow> bool" where
  "plain s = (''..'' \<notin> set (split_on CHR ''/'' s) \<and> final s \<notin> {[], ''.''})"

text \<open>The path of \<^verbatim>\<open>d + '.failed'\<close> for a plain name \<open>d\<close> at path \<open>p\<close>.\<close>

definition failed_name :: "path \<Rightarrow> path" where
  "failed_name p = butlast p @ [last p @ ''.failed'']"

text \<open>
  What a successful rename of the directory at \<open>s\<close> to \<open>t\<close> does to the store, and
  what a successful pass of the loop of \<^verbatim>\<open>on_failure\<close> over directories at the paths
  \<open>ps\<close> does.
\<close>

definition moved :: "path \<Rightarrow> path \<Rightarrow> (path \<Rightarrow> node option) \<Rightarrow> path \<Rightarrow> node option" where
  "moved s t f =
     (\<lambda>p. if prefix t p then f (s @ drop (length t) p)
          else if prefix s p then None else f p)"

fun sweep :: "path list \<Rightarrow> (path \<Rightarrow> node option) \<Rightarrow> (path \<Rightarrow> node option)" where
  "sweep [] f = f"
| "sweep (s # ss) f = sweep ss (if f s \<noteq> None then moved s (failed_name s) f else f)"

section \<open>The outcome of one tuple, and example data\<close>

text \<open>
  One acceptance tuple evaluated on its own, from an empty feed and an empty trace: the
  feed it leaves together with the way its loop ended, and the trace entries it adds.
\<close>

definition group_feed :: "classes \<Rightarrow> component \<Rightarrow> item list \<Rightarrow> error + (feed \<times> loop_exit)" where
  "group_feed st self g =
     (case run_items st self g [] [] of
        Inl e \<Rightarrow> Inl e
      | Inr (input_feeds, log, x) \<Rightarrow> Inr (input_feeds, x))"

definition group_trace :: "classes \<Rightarrow> component \<Rightarrow> item list \<Rightarrow> string list" where
  "group_trace st self g =
     (case run_items st self g [] [] of Inl e \<Rightarrow> [] | Inr (input_feeds, log, x) \<Rightarrow> log)"

subsection \<open>Example data\<close>

text \<open>
  A class store in which every class inherits \<^verbatim>\<open>accepted_components\<close> from
  \<^verbatim>\<open>WorkflowComponent\<close> and nothing has been injected; the \<^verbatim>\<open>InputFormat\<close> objects
  that the constructor leaves for a match on \<^verbatim>\<open>basename.format_id\<close> and for a
  non-match; and the scalar binding of the source task of a matched format.
\<close>

definition engine_classes :: classes where
  "engine_classes =
     \<lparr>mro = (\<lambda>c. [c, ''WorkflowComponent'']),
      class_dict = [''WorkflowComponent'' \<mapsto> 0], heap = (\<lambda>a. [])\<rparr>"

definition matched :: "string \<Rightarrow> string \<Rightarrow> inputformat" where
  "matched fid b =
     \<lparr>valid = True, format_id = fid, directory = False,
      basename = Some b, extension = Some fid\<rparr>"

definition unmatched :: "string \<Rightarrow> inputformat" where
  "unmatched fid =
     \<lparr>valid = False, format_id = fid, directory = False,
      basename = None, extension = None\<rparr>"

definition source :: "string \<Rightarrow> string \<Rightarrow> binding" where
  "source fid b =
     Scalar (SourceSlot \<lparr>task_name = ''inputtask_'' @ fid, it_format_id = fid,
                         it_basename = b, it_extension = fid, it_directory = False\<rparr>)"

text \<open>A component whose only alternative is a format that did not match.\<close>

definition tokenize :: component where
  "tokenize =
     Component ''Tokenize'' [] [] (Some ''doc.xyz'')
       (ReturnsOne (IFormat (unmatched ''txt''))) (\<lambda>f. Inr (Sequence []))"


section \<open>Properties of the format matcher\<close>

lemma strip_dot_undot: "e \<noteq> [] \<Longrightarrow> strip_dot e = Inr (undot e)"
  by (cases e) (simp_all add: undot_def)

lemma endswith_chop: "endswith p (''.'' @ x) \<Longrightarrow> chop p (length x + 1) @ ''.'' @ x = p"
  unfolding endswith_def chop_def
  by (metis append_take_drop_id length_append list.size(3,4) add.commute One_nat_def
        add_Suc_right add_0 Suc_eq_plus1 append_Cons append_Nil)

lemma match_none:
  "\<forall>e\<in>set es. e \<noteq> [] \<Longrightarrow> \<not> (\<exists>e\<in>set es. endswith p (''.'' @ undot e)) \<Longrightarrow>
   match_extensions fs p False es self = Inr self"
  by (induction es) (simp_all add: strip_dot_undot)

lemma match_missing:
  "\<forall>e\<in>set es. e \<noteq> [] \<Longrightarrow> \<exists>e\<in>set es. endswith p (''.'' @ undot e) \<Longrightarrow> \<not> exists fs p \<Longrightarrow>
   match_extensions fs p False es self = Inl FileNotFoundError"
proof (induction es)
  case Nil
  then show ?case by simp
next
  case (Cons e es)
  show ?case
  proof (cases "endswith p (''.'' @ undot e)")
    case True
    with Cons.prems show ?thesis
      using endswith_chop [OF True] by (simp add: strip_dot_undot Let_def)
  next
    case False
    with Cons show ?thesis by (simp add: strip_dot_undot)
  qed
qed

lemma match_found:
  "\<forall>e\<in>set es. e \<noteq> [] \<Longrightarrow> \<exists>e\<in>set es. endswith p (''.'' @ undot e) \<Longrightarrow> exists fs p \<Longrightarrow>
   \<exists>b x. match_extensions fs p False es self =
            Inr (self\<lparr>basename := Some b, extension := Some x, valid := True\<rparr>) \<and>
         b @ ''.'' @ x = p \<and> x \<in> undot ` set es"
proof (induction es)
  case Nil
  then show ?case by simp
next
  case (Cons e es)
  show ?case
  proof (cases "endswith p (''.'' @ undot e)")
    case True
    with Cons.prems show ?thesis
      using endswith_chop [OF True] by (simp add: strip_dot_undot Let_def) blast
  next
    case False
    with Cons show ?thesis by (simp add: strip_dot_undot) blast
  qed
qed

lemmas fs_defs = exists_def locate_def final_def is_dir_def

text \<open>
  Without \<^verbatim>\<open>force\<close>, for a workflow whose input parameter holds the path \<open>p\<close> and
  a descriptor whose declared extensions are non-empty strings, the constructor returns
  a valid format if and only if \<open>p\<close> ends in a dot followed by one of the declared
  extensions (its leading dot stripped, compared case-sensitively) and \<open>p\<close> exists.
\<close>

lemma InputFormat_match_unforced:
  assumes "\<forall>e\<in>set (extensions_of ext). e \<noteq> []" and "attrs ip = Some p"
  shows "(\<exists>r. InputFormat_init attrs fs fid ext ip dir False = Inr r \<and> valid r) \<longleftrightarrow>
           (\<exists>e\<in>set (extensions_of ext). endswith p (''.'' @ undot e)) \<and> exists fs p"
proof -
  let ?self = "\<lparr>valid = False, format_id = fid, directory = dir,
                 basename = None, extension = None\<rparr>"
  let ?es = "extensions_of ext"
  have init: "InputFormat_init attrs fs fid ext ip dir False =
                match_extensions fs p False ?es ?self"
    by (simp add: InputFormat_init_def assms(2))
  show ?thesis
  proof (cases "\<exists>e\<in>set ?es. endswith p (''.'' @ undot e)")
    case False
    from match_none [OF assms(1) False] False show ?thesis
      by (simp add: init)
  next
    case True
    show ?thesis
    proof (cases "exists fs p")
      case False
      from match_missing [OF assms(1) True False] True False show ?thesis
        by (simp add: init)
    next
      case ex: True
      from match_found [OF assms(1) True ex, of ?self] True ex show ?thesis
        by (auto simp: init)
    qed
  qed
qed

text \<open>
  C2. The input \<^verbatim>\<open>doc.txt\<close> exists and the descriptor declares the extensions
  \<^verbatim>\<open>text\<close> and \<^verbatim>\<open>txt\<close>. Without \<^verbatim>\<open>force\<close> the match is valid, with basename
  \<^verbatim>\<open>doc\<close> and extension \<^verbatim>\<open>txt\<close>. With \<^verbatim>\<open>force\<close> the first declared extension is
  taken, but line 96 cuts as many characters off the path as that extension is long
  although the path does not end in it, line 98 looks for \<^verbatim>\<open>do.text\<close>, and the
  constructor raises \<^verbatim>\<open>FileNotFoundError\<close>: the forced match does not succeed.
\<close>

theorem forced_match_tests_mangled_name:
  "InputFormat_init [''inputfile'' \<mapsto> ''doc.txt'']
     \<lparr>cwd = [], nodes = [[''doc.txt''] \<mapsto> File]\<rparr> ''txt''
     (Strs [''text'', ''txt'']) ''inputfile'' False False
   = Inr \<lparr>valid = True, format_id = ''txt'', directory = False,
          basename = Some ''doc'', extension = Some ''txt''\<rparr>
   \<and> InputFormat_init [''inputfile'' \<mapsto> ''doc.txt'']
       \<lparr>cwd = [], nodes = [[''doc.txt''] \<mapsto> File]\<rparr> ''txt''
       (Strs [''text'', ''txt'']) ''inputfile'' False True
     = Inl FileNotFoundError
   \<and> chop ''doc.txt'' (length ''text'' + 1) @ ''.'' @ ''text'' = ''do.text''"
  by (simp add: InputFormat_init_def chop_def endswith_def fs_defs)

text \<open>
  C3 (as amended). Without \<^verbatim>\<open>force\<close>, for a path that ends in a declared extension
  and does not exist, the constructor raises \<^verbatim>\<open>FileNotFoundError\<close> (the class
  \<^verbatim>\<open>MissingInput\<close> is never raised). The resolver does not swallow it: a component
  whose \<^verbatim>\<open>accepts\<close> raises it fails with it, and so does the resolution of any
  parent that reaches that component in one of its tuples, whatever tuples follow.
\<close>

theorem missing_artifact_is_fatal:
  assumes "\<forall>e\<in>set (extensions_of ext). e \<noteq> []" and "attrs ip = Some p"
    and "\<exists>e\<in>set (extensions_of ext). endswith p (''.'' @ undot e)"
    and "\<not> exists fs p"
  shows "InputFormat_init attrs fs fid ext ip dir False = Inl FileNotFoundError
       \<and> (\<forall>st self. accepts self = Raises FileNotFoundError \<longrightarrow>
            setup_input st self = Inl FileNotFoundError)
       \<and> (\<forall>st self swf rest gs feed log. accepts swf = Raises FileNotFoundError \<longrightarrow>
            run_items st self (IComponent swf # rest) feed log = Inl FileNotFoundError \<and>
            try_groups st self ((IComponent swf # rest) # gs) log = Inl FileNotFoundError)"
proof -
  have raise: "setup_input st self = Inl FileNotFoundError"
    if "accepts self = Raises FileNotFoundError" for st self
    using that by (simp add: alternatives_def)
  have "InputFormat_init attrs fs fid ext ip dir False = Inl FileNotFoundError"
    using match_missing [OF assms(1,3,4)] by (simp add: InputFormat_init_def assms(2))
  with raise show ?thesis by simp
qed

theorem missing_artifact_is_fatal_witness:
  "InputFormat_init [''inputfile'' \<mapsto> ''doc.txt''] \<lparr>cwd = [], nodes = (\<lambda>p. None)\<rparr> ''txt''
     (Str ''txt'')
     ''inputfile'' False False = Inl FileNotFoundError
   \<and> try_groups
       \<lparr>mro = (\<lambda>c. [c, ''WorkflowComponent'']),
        class_dict = [''WorkflowComponent'' \<mapsto> 0], heap = (\<lambda>a. [])\<rparr>
       (Component ''Parse'' [] [] (Some ''doc.txt'') (ReturnsSeq []) (\<lambda>f. Inr (Sequence [])))
       [[IComponent (Component ''Tokenize'' [] [] (Some ''doc.txt'')
                       (Raises FileNotFoundError) (\<lambda>f. Inr (Sequence [])))],
        [IFormat \<lparr>valid = True, format_id = ''tok'', directory = False,
                  basename = Some ''doc'', extension = Some ''tok''\<rparr>]]
       [] = Inl FileNotFoundError"
proof -
  have h1: "\<forall>e\<in>set (extensions_of (Str ''txt'')). e \<noteq> []" by simp
  have h2: "[''inputfile'' \<mapsto> ''doc.txt''] ''inputfile'' = Some ''doc.txt''" by simp
  have h3: "\<exists>e\<in>set (extensions_of (Str ''txt'')). endswith ''doc.txt'' (''.'' @ undot e)"
    by (simp add: endswith_def undot_def)
  have h4: "\<not> exists \<lparr>cwd = [], nodes = (\<lambda>p. None)\<rparr> ''doc.txt''"
    by (simp add: fs_defs)
  from missing_artifact_is_fatal [where attrs = "[''inputfile'' \<mapsto> ''doc.txt'']"
      and ip = "''inputfile''" and p = "''doc.txt''" and ext = "Str ''txt''"
      and fs = "\<lparr>cwd = [], nodes = (\<lambda>p. None)\<rparr>" and fid = "''txt''" and dir = False,
      OF h1 h2 h3 h4]
  show ?thesis by simp
qed

text \<open>The error raised is not the \<^verbatim>\<open>MissingInput\<close> that the claim names.\<close>

theorem missing_artifact_counterexample:
  "InputFormat_init [''inputfile'' \<mapsto> ''doc.txt''] \<lparr>cwd = [], nodes = (\<lambda>p. None)\<rparr> ''txt''
     (Str ''txt'')
     ''inputfile'' False False = Inl FileNotFoundError
   \<and> FileNotFoundError \<noteq> MissingInput"
  by (simp add: InputFormat_init_def chop_def endswith_def fs_defs)

section \<open>Properties of the chain resolver\<close>

lemmas ex_defs = engine_classes_def matched_def unmatched_def source_def group_feed_def
  alternatives_def accepted_components_def attr_ref_def InputFormat_task_def initial_log_def

subsection \<open>The trace does not steer the resolution\<close>

lemma run_items_log:
  "run_items st self g feed log =
     (case run_items st self g feed [] of
        Inl e \<Rightarrow> Inl e
      | Inr (f, l, x) \<Rightarrow> Inr (f, log @ l, x))"
proof (induction g arbitrary: feed log)
  case Nil
  then show ?case by simp
next
  case (Cons i rest)
  have step: "run_items st self rest fd (log @ [m]) =
               (case run_items st self rest fd [m] of
                  Inl e \<Rightarrow> Inl e
                | Inr (f, l, x) \<Rightarrow> Inr (f, log @ l, x))" for fd m
    using Cons.IH [of fd "log @ [m]"] Cons.IH [of fd "[m]"]
    by (simp split: sum.splits)
  show ?case
  proof (cases i)
    case (IFormat f)
    then show ?thesis by (cases "InputFormat_task f") (auto simp: step)
  next
    case (IComponent swf)
    then show ?thesis
      using Cons.IH [of _ log] by (simp split: sum.splits option.splits)
  next
    case (IClass k)
    then show ?thesis by simp
  next
    case IOther
    then show ?thesis by simp
  qed
qed

lemma group_feedD:
  "group_feed st self g = Inr (f, x) \<Longrightarrow>
   run_items st self g [] log = Inr (f, log @ group_trace st self g, x)"
  by (subst run_items_log)
     (auto simp: group_feed_def group_trace_def split: sum.splits)

lemma try_groups_skip:
  "\<forall>g\<in>set gs1. \<exists>x. group_feed st self g = Inr ([], x) \<Longrightarrow>
   try_groups st self (gs1 @ gs) log =
     try_groups st self gs (log @ concat (map (group_trace st self) gs1))"
proof (induction gs1 arbitrary: log)
  case Nil
  then show ?case by simp
next
  case (Cons g gs1)
  from Cons.prems obtain x where "group_feed st self g = Inr ([], x)"
    by auto
  from group_feedD [OF this, of log] show ?case
    using Cons.IH [of "log @ group_trace st self g"] Cons.prems by simp
qed

subsection \<open>First match wins\<close>

text \<open>
  C1 (as amended). Let the alternatives of a component be its own acceptance tuples
  followed by the injected ones. If every tuple before \<open>g\<close> ends with an empty feed
  and without an error other than the \<^verbatim>\<open>InvalidInput\<close> the resolver catches, and
  \<open>g\<close> runs through all its elements and leaves a non-empty feed, then
  \<^verbatim>\<open>setup_input\<close> returns the feed of \<open>g\<close>, whatever tuples come after \<open>g\<close>: they
  are not evaluated, not even one that would raise.
\<close>

theorem first_match_wins:
  assumes "alternatives st self = Inr (gs1 @ g # gs2)"
    and "\<forall>g'\<in>set gs1. \<exists>x. group_feed st self g' = Inr ([], x)"
    and "group_feed st self g = Inr (input_feeds, Exhausted)"
    and "input_feeds \<noteq> []"
  shows "setup_input st self = Inr input_feeds"
proof -
  let ?log = "initial_log self @ concat (map (group_trace st self) gs1)"
  from group_feedD [OF assms(3), of ?log] assms(4)
  have "try_groups st self (g # gs2) ?log = Inr input_feeds"
    by simp
  with try_groups_skip [OF assms(2), of "g # gs2" "initial_log self"] assms(1)
  show ?thesis by simp
qed

theorem first_match_wins_witness:
  "setup_input engine_classes
     (Component ''Parse'' [] [] (Some ''doc.txt'')
        (ReturnsSeq [EItem (IFormat (unmatched ''conll'')),
                     EItem (IFormat (matched ''txt'' ''doc'')), EItem IOther])
        (\<lambda>f. Inr (Sequence [])))
   = Inr [(''txt'', source ''txt'' ''doc'')]"
proof -
  let ?self = "Component ''Parse'' [] [] (Some ''doc.txt'')
        (ReturnsSeq [EItem (IFormat (unmatched ''conll'')),
                     EItem (IFormat (matched ''txt'' ''doc'')), EItem IOther])
        (\<lambda>f. Inr (Sequence []))"
  have h1: "alternatives engine_classes ?self =
              Inr ([[IFormat (unmatched ''conll'')]] @ [IFormat (matched ''txt'' ''doc'')]
                     # [[IOther]])"
    by (simp add: ex_defs)
  have h2: "\<forall>g'\<in>set [[IFormat (unmatched ''conll'')]].
              \<exists>x. group_feed engine_classes ?self g' = Inr ([], x)"
    by (simp add: ex_defs)
  have h3: "group_feed engine_classes ?self [IFormat (matched ''txt'' ''doc'')] =
              Inr ([(''txt'', source ''txt'' ''doc'')], Exhausted)"
    by (simp add: ex_defs)
  have h4: "[(''txt'', source ''txt'' ''doc'')] \<noteq> []" by simp
  from first_match_wins [OF h1 h2 h3 h4] show ?thesis .
qed

text \<open>
  The claim as stated fails on two inputs. An element that is neither a format nor a
  component raises \<^verbatim>\<open>TypeError\<close> although the next tuple would complete with a
  non-empty feed. And a tuple that stops at its second element keeps the binding of its
  first, which is returned although the first tuple that completes is the next one.
\<close>

theorem first_match_counterexample:
  "setup_input engine_classes
     (Component ''Parse'' [] [] (Some ''doc.txt'')
        (ReturnsSeq [EItem IOther, EItem (IFormat (matched ''txt'' ''doc''))])
        (\<lambda>f. Inr (Sequence [])))
   = Inl TypeError
   \<and> group_feed engine_classes
       (Component ''Parse'' [] [] (Some ''doc.txt'')
          (ReturnsSeq [ETuple [IFormat (matched ''folia'' ''doc''), IFormat (unmatched ''tok'')],
                       EItem (IFormat (matched ''txt'' ''doc''))])
          (\<lambda>f. Inr (Sequence [])))
       [IFormat (matched ''folia'' ''doc''), IFormat (unmatched ''tok'')]
     = Inr ([(''folia'', source ''folia'' ''doc'')], Break)
   \<and> group_feed engine_classes
       (Component ''Parse'' [] [] (Some ''doc.txt'')
          (ReturnsSeq [ETuple [IFormat (matched ''folia'' ''doc''), IFormat (unmatched ''tok'')],
                       EItem (IFormat (matched ''txt'' ''doc''))])
          (\<lambda>f. Inr (Sequence [])))
       [IFormat (matched ''txt'' ''doc'')]
     = Inr ([(''txt'', source ''txt'' ''doc'')], Exhausted)
   \<and> setup_input engine_classes
       (Component ''Parse'' [] [] (Some ''doc.txt'')
          (ReturnsSeq [ETuple [IFormat (matched ''folia'' ''doc''), IFormat (unmatched ''tok'')],
                       EItem (IFormat (matched ''txt'' ''doc''))])
          (\<lambda>f. Inr (Sequence [])))
     = Inr [(''folia'', source ''folia'' ''doc'')]"
  by (simp add: ex_defs)

subsection \<open>A tuple that fails half-way\<close>

text \<open>
  C4. The component accepts the pair of formats \<^verbatim>\<open>(txt, tok)\<close> or else the format
  \<^verbatim>\<open>conll\<close>; \<^verbatim>\<open>txt\<close> and \<^verbatim>\<open>conll\<close> match the input, \<^verbatim>\<open>tok\<close> does not. The loop
  over the pair ends by \<^verbatim>\<open>break\<close> at \<^verbatim>\<open>tok\<close> with the binding of \<^verbatim>\<open>txt\<close> still
  in the feed, and \<^verbatim>\<open>setup_input\<close> returns that feed: the failed pair contributes a
  feed and the next tuple is not tried.
\<close>

theorem partial_group_is_returned:
  "group_feed engine_classes
     (Component ''Align'' [] [] (Some ''doc.txt'')
        (ReturnsSeq [ETuple [IFormat (matched ''txt'' ''doc''), IFormat (unmatched ''tok'')],
                     EItem (IFormat (matched ''conll'' ''doc''))])
        (\<lambda>f. Inr (Sequence [])))
     [IFormat (matched ''txt'' ''doc''), IFormat (unmatched ''tok'')]
   = Inr ([(''txt'', source ''txt'' ''doc'')], Break)
   \<and> setup_input engine_classes
       (Component ''Align'' [] [] (Some ''doc.txt'')
          (ReturnsSeq [ETuple [IFormat (matched ''txt'' ''doc''), IFormat (unmatched ''tok'')],
                       EItem (IFormat (matched ''conll'' ''doc''))])
          (\<lambda>f. Inr (Sequence [])))
     = Inr [(''txt'', source ''txt'' ''doc'')]"
  by (simp add: ex_defs)

subsection \<open>Backtracking over sub-components\<close>

lemma resolve_invalid:
  "(case setup_input st swf of Inl e \<Rightarrow> Inl e | Inr nf \<Rightarrow> setup_of swf nf)
     = Inl (InvalidInput msg) \<Longrightarrow>
   run_items st self (IComponent swf # rest) input_feeds log =
     Inr (input_feeds, log @ [tried_entry (cname swf) msg], Break)"
  by simp

text \<open>
  When the resolution of a sub-component (its \<^verbatim>\<open>setup_input\<close> or its
  \<^verbatim>\<open>setup\<close>) raises \<^verbatim>\<open>InvalidInput\<close> and that sub-component is the first element
  of its tuple, the loop over the tuple stops with an empty feed and one more trace
  entry, which names the sub-component and carries its message, and the resolver goes on
  to the next tuple with that trace. When every alternative ends with an empty feed,
  \<^verbatim>\<open>setup_input\<close> raises \<^verbatim>\<open>InvalidInput\<close> whose message is the trace: the input
  file and the entries of all tuples in order.
\<close>

lemma first_item_backtracks:
  assumes "(case setup_input st swf of Inl e \<Rightarrow> Inl e | Inr nf \<Rightarrow> setup_of swf nf)
             = Inl (InvalidInput msg)"
    and "alternatives st self = Inr gs"
    and "\<forall>g\<in>set gs. \<exists>x. group_feed st self g = Inr ([], x)"
  shows "run_items st self (IComponent swf # rest) [] log =
           Inr ([], log @ [tried_entry (cname swf) msg], Break)
       \<and> try_groups st self ((IComponent swf # rest) # later) log =
           try_groups st self later (log @ [tried_entry (cname swf) msg])
       \<and> setup_input st self =
           Inl (InvalidInput
                  (no_entry_point
                     (initial_log self @ concat (map (group_trace st self) gs))))"
proof -
  note r = resolve_invalid [OF assms(1)]
  have "try_groups st self ((IComponent swf # rest) # later) log =
          try_groups st self later (log @ [tried_entry (cname swf) msg])"
    by (simp add: r del: run_items.simps)
  moreover have "setup_input st self =
           Inl (InvalidInput
                  (no_entry_point
                     (initial_log self @ concat (map (group_trace st self) gs))))"
    using try_groups_skip [OF assms(3), of "[]" "initial_log self"] assms(2) by simp
  ultimately show ?thesis using r by blast
qed

lemma first_item_backtracks_example:
  "setup_input engine_classes
     (Component ''Parse'' [] [] (Some ''doc.xyz'')
        (ReturnsSeq [EItem (IFormat (unmatched ''conll'')), EItem (IComponent tokenize)])
        (\<lambda>f. Inr (Sequence [])))
   = Inl (InvalidInput
       (''Unable to find an entry point for supplied input: inputfile=doc.xyz; '' @
        ''InputFormat conll does not match (inputslot=); '' @
        ''(Tried workflow Tokenize in accept chain, does not handle provided input: '' @
        ''Unable to find an entry point for supplied input: inputfile=doc.xyz; '' @
        ''InputFormat txt does not match (inputslot=))''))"
proof -
  let ?self = "Component ''Parse'' [] [] (Some ''doc.xyz'')
        (ReturnsSeq [EItem (IFormat (unmatched ''conll'')), EItem (IComponent tokenize)])
        (\<lambda>f. Inr (Sequence []))"
  let ?msg = "''Unable to find an entry point for supplied input: inputfile=doc.xyz; '' @
        ''InputFormat txt does not match (inputslot=)''"
  have h1: "(case setup_input engine_classes tokenize of
               Inl e \<Rightarrow> Inl e | Inr nf \<Rightarrow> setup_of tokenize nf) = Inl (InvalidInput ?msg)"
    by (simp add: ex_defs tokenize_def no_entry_point_def no_match_entry_def)
  have h2: "alternatives engine_classes ?self =
              Inr [[IFormat (unmatched ''conll'')], [IComponent tokenize]]"
    by (simp add: ex_defs)
  have h3: "\<forall>g\<in>set [[IFormat (unmatched ''conll'')], [IComponent tokenize]].
              \<exists>x. group_feed engine_classes ?self g = Inr ([], x)"
    using h1 by (simp add: group_feed_def unmatched_def del: setup_input.simps)
  from first_item_backtracks [OF h1 h2 h3]
  have "setup_input engine_classes ?self =
          Inl (InvalidInput (no_entry_point (initial_log ?self @ concat (map
             (group_trace engine_classes ?self)
             [[IFormat (unmatched ''conll'')], [IComponent tokenize]]))))"
    by blast
  moreover have "group_trace engine_classes ?self [IComponent tokenize] =
                   [tried_entry ''Tokenize'' ?msg]"
  proof -
    have n: "cname tokenize = ''Tokenize''" by (simp add: tokenize_def)
    from resolve_invalid [OF h1, of ?self "[]" "[]" "[]"] show ?thesis
      by (simp add: group_trace_def n del: run_items.simps)
  qed
  ultimately show ?thesis
    by (simp add: group_trace_def unmatched_def initial_log_def no_entry_point_def
          no_match_entry_def tried_entry_def)
qed

text \<open>
  C5. The component accepts the pair (format \<^verbatim>\<open>xyz\<close>, sub-component
  \<^verbatim>\<open>Tokenize\<close>) or else the format \<^verbatim>\<open>conll\<close>; both formats match the input, and the
  resolution of \<^verbatim>\<open>Tokenize\<close> raises \<^verbatim>\<open>InvalidInput\<close>. The loop over the pair ends
  by \<^verbatim>\<open>break\<close> at the sub-component (lines 242-246) with the binding of \<^verbatim>\<open>xyz\<close>
  still in the feed, and line 267 returns that feed: the group of the failed
  sub-component is not abandoned and the next group, which would resolve, is not tried.
\<close>

theorem subcomponent_failure_returns_partial_feed:
  "(\<exists>msg. setup_input engine_classes tokenize = Inl (InvalidInput msg))
   \<and> group_feed engine_classes
       (Component ''Parse'' [] [] (Some ''doc.xyz'')
          (ReturnsSeq [ETuple [IFormat (matched ''xyz'' ''doc''), IComponent tokenize],
                       EItem (IFormat (matched ''conll'' ''doc''))])
          (\<lambda>f. Inr (Sequence [])))
       [IFormat (matched ''xyz'' ''doc''), IComponent tokenize]
     = Inr ([(''xyz'', source ''xyz'' ''doc'')], Break)
   \<and> setup_input engine_classes
       (Component ''Parse'' [] [] (Some ''doc.xyz'')
          (ReturnsSeq [ETuple [IFormat (matched ''xyz'' ''doc''), IComponent tokenize],
                       EItem (IFormat (matched ''conll'' ''doc''))])
          (\<lambda>f. Inr (Sequence [])))
     = Inr [(''xyz'', source ''xyz'' ''doc'')]
   \<and> group_feed engine_classes
       (Component ''Parse'' [] [] (Some ''doc.xyz'')
          (ReturnsSeq [ETuple [IFormat (matched ''xyz'' ''doc''), IComponent tokenize],
                       EItem (IFormat (matched ''conll'' ''doc''))])
          (\<lambda>f. Inr (Sequence [])))
       [IFormat (matched ''conll'' ''doc'')]
     = Inr ([(''conll'', source ''conll'' ''doc'')], Exhausted)"
  by (simp add: ex_defs tokenize_def)

subsection \<open>Fan-in\<close>










section \<open>Properties of parameter propagation\<close>

lemma transfer_key:
  "transfer class_dir parent kwargs key =
     (if (key, True) \<in> set class_dir \<and> kwargs key = None then parent key else kwargs key)"
proof (induction class_dir arbitrary: kwargs)
  case Nil
  then show ?case by simp
next
  case (Cons a class_dir)
  obtain k b where a: "a = (k, b)" by (cases a)
  show ?case unfolding a by (simp add: Cons.IH) auto
qed

text \<open>
  C7. The keyword arguments an \<^verbatim>\<open>InputComponent\<close> ends up with are, at every name:
  the parent's value when the child class declares a parameter of that name and the
  explicit overrides do not supply it (nothing when the parent has no such attribute),
  and the override (or nothing) otherwise. The bound parameters are a function of the
  parent's attributes, the child's declared parameters and the overrides alone.
\<close>

theorem propagation_binds:
  "ic_kwargs (InputComponent_init parent Class class_dir args kwargs) key =
     (if (key, True) \<in> set class_dir \<and> kwargs key = None then parent key else kwargs key)"
  by (simp add: InputComponent_init_def transfer_key)

section \<open>Properties of the success handler\<close>

lemma on_success_never_marks:
  "on_success self fs = Inr fs \<or> on_success self fs = Inl TypeError"
  by (simp add: on_success_def split: option.splits)

text \<open>
  C8. A task registers the output directory \<^verbatim>\<open>out\<close> on an empty file system, which
  creates it empty, and then reports success: the handler returns normally and leaves the
  file system as it is. The directory is not renamed and \<^verbatim>\<open>EmptyDirectory\<close> is not
  raised.
\<close>

theorem on_success_empty_directory:
  "(case setup_output_dir new_task_state ''out'' \<lparr>cwd = [], nodes = (\<lambda>p. None)\<rparr> of
      Inl e \<Rightarrow> False
    | Inr (self, fs) \<Rightarrow>
        output_dir self = Some [''out''] \<and> nodes fs [''out''] = Some Dir \<and>
        (\<forall>c. nodes fs [''out'', c] = None) \<and>
        on_success self fs = Inr fs)"
  by (simp add: setup_output_dir_def new_task_state_def makedirs_def on_success_def fs_defs)

section \<open>Properties of the injected acceptance list\<close>

lemma attr_ref_same:
  "mro st' = mro st \<Longrightarrow> class_dict st' = class_dict st \<Longrightarrow> attr_ref st' cls = attr_ref st cls"
  by (simp add: attr_ref_def split: option.splits)

lemma defining_class_bound:
  "defining_class d ks = Some k \<Longrightarrow> d k \<noteq> None"
  by (induction ks) (auto split: if_splits)

lemma accept_one:
  "attr_ref st cls = Some a \<Longrightarrow>
   accept st cls [C] =
     Inr (if C \<in> set (heap st a) then st
          else st\<lparr>heap := (heap st)(a := heap st a @ [C])\<rparr>)"
  by simp

text \<open>
  C10 (as amended). Let the lookup of \<^verbatim>\<open>accepted_components\<close> on the classes \<open>A\<close>
  and \<open>B\<close> both end in \<^verbatim>\<open>WorkflowComponent\<close>: neither they nor any class before
  \<^verbatim>\<open>WorkflowComponent\<close> in their method resolution order binds the name. Then \<open>A\<close>
  and \<open>B\<close> read one list \<open>ks\<close>; \<^verbatim>\<open>A.accept(C)\<close> succeeds, and afterwards both read
  \<open>ks\<close> with \<open>C\<close> appended at its end (\<open>ks\<close> itself when it held \<open>C\<close> already), so
  that nothing the list held is lost; and the alternatives that the resolution of an
  instance of \<open>B\<close> iterates over are its own acceptance tuples followed by one tuple
  per class of that list, in order.
\<close>

theorem accept_is_shared:
  assumes A: "defining_class (class_dict st) (mro st A) = Some ''WorkflowComponent''"
    and B: "defining_class (class_dict st) (mro st B) = Some ''WorkflowComponent''"
    and b: "cname b = B" "as_sequence (accepts b) = Inr es"
  shows "\<exists>st' ks. accepted_components st A = Inr ks \<and> accepted_components st B = Inr ks \<and>
           accept st A [C] = Inr st' \<and>
           accepted_components st' A = Inr (if C \<in> set ks then ks else ks @ [C]) \<and>
           accepted_components st' B = Inr (if C \<in> set ks then ks else ks @ [C]) \<and>
           alternatives st' b =
             Inr (map as_tuple es
                  @ map (\<lambda>k. [IClass k]) (if C \<in> set ks then ks else ks @ [C]))"
proof -
  from defining_class_bound [OF A] obtain a where
    a: "class_dict st ''WorkflowComponent'' = Some a" by auto
  have refA: "attr_ref st A = Some a" and refB: "attr_ref st B = Some a"
    using A B a by (simp_all add: attr_ref_def)
  define ks where "ks = heap st a"
  define ks' where "ks' = (if C \<in> set ks then ks else ks @ [C])"
  define st' where "st' = (if C \<in> set ks then st else st\<lparr>heap := (heap st)(a := ks @ [C])\<rparr>)"
  have acc: "accept st A [C] = Inr st'"
    unfolding st'_def ks_def by (rule accept_one [OF refA])
  have same: "mro st' = mro st" "class_dict st' = class_dict st"
    by (simp_all add: st'_def)
  have ref': "attr_ref st' A = Some a" "attr_ref st' B = Some a"
    using refA refB attr_ref_same [OF same] by simp_all
  have h: "heap st' a = ks'"
    by (simp add: st'_def ks'_def ks_def)
  have before: "accepted_components st A = Inr ks" "accepted_components st B = Inr ks"
    using refA refB by (simp_all add: accepted_components_def ks_def)
  have after: "accepted_components st' A = Inr ks'" "accepted_components st' B = Inr ks'"
    using ref' h by (simp_all add: accepted_components_def)
  have alt: "alternatives st' b = Inr (map as_tuple es @ map (\<lambda>k. [IClass k]) ks')"
    using after(2) b by (simp add: alternatives_def)
  show ?thesis
    using acc before after alt unfolding ks'_def by blast
qed

theorem accept_is_shared_witness:
  "\<exists>st'. accept
            \<lparr>mro = (\<lambda>c. [c, ''StandardWorkflowComponent'', ''WorkflowComponent'']),
             class_dict = [''WorkflowComponent'' \<mapsto> 0], heap = (\<lambda>a. [''Frog''])\<rparr>
            ''Parse'' [''Ucto''] = Inr st' \<and>
         accepted_components st' ''Tokenize'' = Inr [''Frog'', ''Ucto''] \<and>
         alternatives st'
           (Component ''Tokenize'' [] [] (Some ''doc.txt'') (ReturnsSeq [])
              (\<lambda>f. Inr (Sequence []))) = Inr [[IClass ''Frog''], [IClass ''Ucto'']]"
proof -
  let ?st = "\<lparr>mro = (\<lambda>c. [c, ''StandardWorkflowComponent'', ''WorkflowComponent'']),
             class_dict = [''WorkflowComponent'' \<mapsto> 0], heap = (\<lambda>a. [''Frog''])\<rparr>"
  let ?b = "Component ''Tokenize'' [] [] (Some ''doc.txt'') (ReturnsSeq [])
              (\<lambda>f. Inr (Sequence []))"
  have A: "defining_class (class_dict ?st) (mro ?st ''Parse'') = Some ''WorkflowComponent''"
    by simp
  have B: "defining_class (class_dict ?st) (mro ?st ''Tokenize'') = Some ''WorkflowComponent''"
    by simp
  have b: "cname ?b = ''Tokenize''" "as_sequence (accepts ?b) = Inr []" by simp_all
  have k: "accepted_components ?st ''Tokenize'' = Inr [''Frog'']"
    by (simp add: accepted_components_def attr_ref_def)
  from accept_is_shared [OF A B b, of "''Ucto''"] k
  show ?thesis by (auto simp del: accept.simps)
qed

text \<open>
  The claim as stated fails when a class between \<open>A\<close> and \<^verbatim>\<open>WorkflowComponent\<close>
  binds the name: \<^verbatim>\<open>Parse\<close> and \<^verbatim>\<open>Tokenize\<close> do not define the attribute themselves,
  but \<^verbatim>\<open>Parse\<close> inherits it from \<^verbatim>\<open>Chunker\<close>, which does. \<^verbatim>\<open>Parse.accept(Ucto)\<close>
  appends to the list of \<^verbatim>\<open>Chunker\<close>, and \<^verbatim>\<open>Tokenize\<close> still reads the empty list
  of \<^verbatim>\<open>WorkflowComponent\<close>.
\<close>

theorem intermediate_class_counterexample:
  "class_dict
     \<lparr>mro = (\<lambda>c. if c = ''Parse'' then [''Parse'', ''Chunker'', ''WorkflowComponent'']
                  else [c, ''WorkflowComponent'']),
      class_dict = [''WorkflowComponent'' \<mapsto> 0, ''Chunker'' \<mapsto> 1], heap = (\<lambda>a. [])\<rparr>
     ''Parse'' = None
   \<and> class_dict
     \<lparr>mro = (\<lambda>c. if c = ''Parse'' then [''Parse'', ''Chunker'', ''WorkflowComponent'']
                  else [c, ''WorkflowComponent'']),
      class_dict = [''WorkflowComponent'' \<mapsto> 0, ''Chunker'' \<mapsto> 1], heap = (\<lambda>a. [])\<rparr>
     ''Tokenize'' = None
   \<and> (case accept
           \<lparr>mro = (\<lambda>c. if c = ''Parse'' then [''Parse'', ''Chunker'', ''WorkflowComponent'']
                        else [c, ''WorkflowComponent'']),
            class_dict = [''WorkflowComponent'' \<mapsto> 0, ''Chunker'' \<mapsto> 1], heap = (\<lambda>a. [])\<rparr>
           ''Parse'' [''Ucto''] of
         Inl e \<Rightarrow> False
       | Inr st' \<Rightarrow>
           accepted_components st' ''Parse'' = Inr [''Ucto''] \<and>
           accepted_components st' ''Tokenize'' = Inr [])"
  by (simp add: accepted_components_def attr_ref_def)

section \<open>Properties of the failure handler\<close>

subsection \<open>Plain names\<close>

lemma split_on_nonempty: "split_on c s \<noteq> []"
  by (induction s) (auto split: list.splits)

lemma split_on_append:
  "c \<notin> set x \<Longrightarrow>
   split_on c (s @ x) = butlast (split_on c s) @ [last (split_on c s) @ x]"
proof (induction s)
  case Nil
  have "split_on c x = [x]" using Nil by (induction x) auto
  then show ?case by simp
next
  case (Cons a s)
  obtain w ws where w: "split_on c s = w # ws"
    using split_on_nonempty [of c s] by (cases "split_on c s") auto
  obtain v vs where v: "split_on c (s @ x) = v # vs"
    using split_on_nonempty [of c "s @ x"] by (cases "split_on c (s @ x)") auto
  from Cons w v show ?case
    by (cases ws) (auto split: if_splits)
qed

lemma walk_plain:
  "''..'' \<notin> set cs \<Longrightarrow> walk fs cur cs = Some (cur @ filter (\<lambda>c. c \<noteq> [] \<and> c \<noteq> ''.'') cs)"
  by (induction cs arbitrary: cur) auto

lemma plain_nonempty: "plain s \<Longrightarrow> s \<noteq> []"
  by (auto simp: plain_def final_def)

lemma locate_plain: "plain s \<Longrightarrow> locate fs s = Some (place (cwd fs) s)"
  by (cases s) (auto simp: locate_def place_def parts_def plain_def walk_plain final_def)

lemma parts_plain:
  "plain s \<Longrightarrow> parts s = filter (\<lambda>c. c \<noteq> [] \<and> c \<noteq> ''.'') (butlast (split_on CHR ''/'' s)) @ [final s]"
proof -
  assume p: "plain s"
  have "split_on CHR ''/'' s = butlast (split_on CHR ''/'' s) @ [final s]"
    using split_on_nonempty [of "CHR ''/''" s] by (simp add: final_def)
  then have "parts s = filter (\<lambda>c. c \<noteq> [] \<and> c \<noteq> ''.'')
                         (butlast (split_on CHR ''/'' s) @ [final s])"
    by (simp add: parts_def)
  with p show ?thesis by (simp add: plain_def)
qed

lemma split_failed:
  "split_on CHR ''/'' (s @ ''.failed'') =
     butlast (split_on CHR ''/'' s) @ [final s @ ''.failed'']"
  by (subst split_on_append) (simp_all add: final_def)

lemma plain_failed: "plain s \<Longrightarrow> plain (s @ ''.failed'')"
  using split_on_nonempty [of "CHR ''/''" s]
  by (auto simp: plain_def final_def split_failed dest: in_set_butlastD)

lemma final_failed: "final (s @ ''.failed'') = final s @ ''.failed''"
  by (simp add: final_def split_failed)

lemma parts_failed: "plain s \<Longrightarrow> parts (s @ ''.failed'') = failed_name (parts s)"
proof -
  assume p: "plain s"
  have "parts (s @ ''.failed'') =
          filter (\<lambda>c. c \<noteq> [] \<and> c \<noteq> ''.'') (butlast (split_on CHR ''/'' (s @ ''.failed'')))
            @ [final (s @ ''.failed'')]"
    using parts_plain [OF plain_failed [OF p]] .
  also have "butlast (split_on CHR ''/'' (s @ ''.failed'')) = butlast (split_on CHR ''/'' s)"
    by (simp add: split_failed)
  finally show ?thesis
    using parts_plain [OF p] by (simp add: failed_name_def final_failed)
qed

lemma take1_failed: "s \<noteq> [] \<Longrightarrow> take 1 (s @ ''.failed'') = take 1 s"
  by (cases s) simp_all

lemma failed_name_append: "p \<noteq> [] \<Longrightarrow> failed_name (a @ p) = a @ failed_name p"
  by (simp add: failed_name_def butlast_append)

lemma place_failed: "plain s \<Longrightarrow> place c (s @ ''.failed'') = failed_name (place c s)"
proof -
  assume p: "plain s"
  have ne: "parts s \<noteq> []" using parts_plain [OF p] by simp
  have t: "take 1 (s @ ''.failed'') = take 1 s"
    by (rule take1_failed [OF plain_nonempty [OF p]])
  have "place c (s @ ''.failed'') = (if take 1 s = ''/'' then [] else c) @ failed_name (parts s)"
    unfolding place_def t parts_failed [OF p] ..
  also have "\<dots> = failed_name (place c s)"
    unfolding place_def by (rule failed_name_append [OF ne, symmetric])
  finally show ?thesis .
qed

lemma place_nonempty: "plain s \<Longrightarrow> place c s \<noteq> []"
  using parts_plain [of s] by (simp add: place_def)

lemma final_in_split: "final s \<in> set (split_on CHR ''/'' s)"
  using split_on_nonempty [of "CHR ''/''" s] by (simp add: final_def)

lemma plain_final: "plain s \<Longrightarrow> final s \<notin> {[], ''.'', ''..''}"
  using final_in_split [of s] by (auto simp: plain_def)

lemma exists_plain: "plain s \<Longrightarrow> exists fs s = (nodes fs (place (cwd fs) s) \<noteq> None)"
  using plain_final [of s] by (simp add: exists_def locate_plain place_nonempty)

subsection \<open>One pass over the registered directories\<close>

lemma failed_name_snoc: "failed_name (ys @ [y]) = ys @ [y @ ''.failed'']"
  by (simp add: failed_name_def)

lemma failed_name_not_prefix:
  assumes "p \<noteq> []"
  shows "\<not> prefix p (failed_name p)" and "\<not> prefix (failed_name p) p"
    and "failed_name p \<noteq> p"
proof -
  from assms obtain ys y where p: "p = ys @ [y]" by (cases p rule: rev_cases) auto
  show "\<not> prefix p (failed_name p)" "\<not> prefix (failed_name p) p" "failed_name p \<noteq> p"
    unfolding p failed_name_snoc by (auto simp: prefix_def)
qed

lemma strict_prefix_failed_name:
  assumes "p \<noteq> []"
  shows "strict_prefix q (failed_name p) \<longleftrightarrow> strict_prefix q p"
proof -
  from assms obtain ys y where p: "p = ys @ [y]" by (cases p rule: rev_cases) auto
  show ?thesis unfolding p failed_name_snoc by (auto simp: strict_prefix_def)
qed

lemma failed_name_inject:
  assumes "p \<noteq> []" and "q \<noteq> []" and "failed_name p = failed_name q"
  shows "p = q"
proof -
  from assms(1) obtain ys y where p: "p = ys @ [y]" by (cases p rule: rev_cases) auto
  from assms(2) obtain zs z where q: "q = zs @ [z]" by (cases q rule: rev_cases) auto
  from assms(3) show ?thesis unfolding p q failed_name_snoc by simp
qed

lemma rename_plain:
  assumes "plain d" and "nodes fs (place (cwd fs) d) \<noteq> None"
    and "rename d (d @ ''.failed'') fs = Inr fs'"
  shows "cwd fs' = cwd fs"
    and "nodes fs' = moved (place (cwd fs) d) (failed_name (place (cwd fs) d)) (nodes fs)"
proof -
  let ?s = "place (cwd fs) d"
  have l: "locate fs d = Some ?s" "locate fs (d @ ''.failed'') = Some (failed_name ?s)"
    using assms(1) by (simp_all add: locate_plain plain_failed place_failed)
  have ne: "?s \<noteq> []" using assms(1) by (rule place_nonempty)
  note np = failed_name_not_prefix [OF ne]
  from assms(2,3) l np
  have "fs' = fs\<lparr>nodes := moved ?s (failed_name ?s) (nodes fs)\<rparr>"
    by (auto simp: rename_def moved_def split: if_splits)
  then show "cwd fs' = cwd fs"
    and "nodes fs' = moved ?s (failed_name ?s) (nodes fs)"
    by simp_all
qed

lemma mark_failed_sweep:
  "\<forall>d\<in>set ds. plain d \<Longrightarrow> mark_failed ds fs = Inr fs1 \<Longrightarrow>
   cwd fs1 = cwd fs \<and> nodes fs1 = sweep (map (place (cwd fs)) ds) (nodes fs)"
proof (induction ds arbitrary: fs)
  case Nil
  then show ?case by simp
next
  case (Cons d ds)
  then have p: "plain d" by simp
  show ?case
  proof (cases "nodes fs (place (cwd fs) d) = None")
    case True
    with Cons p show ?thesis by (simp add: exists_plain)
  next
    case False
    with Cons.prems p obtain fs' where
      r: "rename d (d @ ''.failed'') fs = Inr fs'" and m: "mark_failed ds fs' = Inr fs1"
      by (auto simp: exists_plain split: sum.splits)
    note e = rename_plain [OF p False r]
    from Cons.IH [OF _ m] Cons.prems(1) e False show ?thesis by simp
  qed
qed


lemma sweep_not_created:
  "\<forall>s\<in>set ps. \<not> prefix (failed_name s) p \<Longrightarrow> f p = None \<Longrightarrow> sweep ps f p = None"
  by (induction ps arbitrary: f) (simp_all add: moved_def)

lemma sweep_gone:
  assumes "\<forall>s\<in>set ps. s \<noteq> []"
    and "\<forall>s\<in>set ps. \<forall>s'\<in>set ps. \<not> prefix (failed_name s') s"
  shows "\<forall>s\<in>set ps. sweep ps f s = None"
  using assms
proof (induction ps arbitrary: f)
  case Nil
  then show ?case by simp
next
  case (Cons s0 ps)
  let ?f = "if f s0 \<noteq> None then moved s0 (failed_name s0) f else f"
  have ne: "s0 \<noteq> []" using Cons.prems(1) by simp
  have "?f s0 = None"
    using failed_name_not_prefix(2) [OF ne] by (simp add: moved_def)
  moreover have "\<forall>s\<in>set ps. \<not> prefix (failed_name s) s0"
    using Cons.prems(2) by simp
  ultimately have "sweep ps ?f s0 = None" by (simp add: sweep_not_created)
  moreover have "\<forall>s\<in>set ps. sweep ps ?f s = None"
    using Cons.IH [of ?f] Cons.prems by simp
  ultimately show ?case by simp
qed

lemma sweep_frame:
  assumes "\<forall>s\<in>set ps. \<forall>s'\<in>set ps. \<not> prefix (failed_name s') s"
    and "\<forall>s\<in>set ps. \<not> prefix s p"
    and "\<forall>s\<in>set ps. prefix (failed_name s) p \<longrightarrow> f s = None"
  shows "sweep ps f p = f p"
  using assms
proof (induction ps arbitrary: f)
  case Nil
  then show ?case by simp
next
  case (Cons s0 ps)
  let ?f = "if f s0 \<noteq> None then moved s0 (failed_name s0) f else f"
  have same: "?f p = f p"
    using Cons.prems(2,3) by (auto simp: moved_def)
  have "\<forall>s\<in>set ps. prefix (failed_name s) p \<longrightarrow> ?f s = None"
  proof (intro ballI impI)
    fix s assume s: "s \<in> set ps" "prefix (failed_name s) p"
    then have "f s = None" using Cons.prems(3) by simp
    moreover have "\<not> prefix (failed_name s0) s" using Cons.prems(1) s(1) by simp
    ultimately show "?f s = None" by (simp add: moved_def)
  qed
  with Cons.IH [of ?f] Cons.prems(1,2) have "sweep ps ?f p = ?f p" by simp
  with same show ?case by simp
qed

lemma sweep_moved:
  assumes "\<forall>s\<in>set ps. s \<noteq> []"
    and "\<forall>s\<in>set ps. \<forall>s'\<in>set ps. \<not> prefix (failed_name s') s"
    and "s \<in> set ps" and "f s \<noteq> None"
    and "\<forall>s'\<in>set ps. \<not> strict_prefix s' s"
  shows "sweep ps f (failed_name s) = f s"
  using assms
proof (induction ps arbitrary: f)
  case Nil
  then show ?case by simp
next
  case (Cons s0 ps)
  let ?f = "if f s0 \<noteq> None then moved s0 (failed_name s0) f else f"
  have N: "\<forall>a\<in>set ps. \<forall>b\<in>set ps. \<not> prefix (failed_name b) a"
    using Cons.prems(2) by simp
  have ne: "s \<noteq> []" using Cons.prems(1,3) by auto
  show ?case
  proof (cases "s0 = s")
    case True
    let ?t = "failed_name s"
    have ft: "?f ?t = f s"
      using Cons.prems(4) True by (simp add: moved_def)
    have fs: "?f s = None"
      using Cons.prems(4) True failed_name_not_prefix(2) [OF ne] by (simp add: moved_def)
    have a: "\<forall>s'\<in>set ps. \<not> prefix s' ?t"
    proof
      fix s' assume s': "s' \<in> set ps"
      have "s' \<noteq> ?t" using Cons.prems(2) s' True by auto
      moreover have "\<not> strict_prefix s' ?t"
        using Cons.prems(5) s' by (simp add: strict_prefix_failed_name [OF ne])
      ultimately show "\<not> prefix s' ?t" by (simp add: strict_prefix_def)
    qed
    have b: "\<forall>s'\<in>set ps. prefix (failed_name s') ?t \<longrightarrow> ?f s' = None"
    proof (intro ballI impI)
      fix s' assume s': "s' \<in> set ps" "prefix (failed_name s') ?t"
      have ne': "s' \<noteq> []" using Cons.prems(1) s'(1) by simp
      have "\<not> strict_prefix (failed_name s') s"
        using Cons.prems(2,3) s'(1) by (auto simp: strict_prefix_def)
      then have "\<not> strict_prefix (failed_name s') ?t"
        by (simp add: strict_prefix_failed_name [OF ne])
      with s'(2) have "failed_name s' = ?t" by (simp add: strict_prefix_def)
      then have "s' = s" by (rule failed_name_inject [OF ne' ne])
      with fs show "?f s' = None" by simp
    qed
    have "sweep ps ?f ?t = ?f ?t" by (rule sweep_frame [OF N a b])
    with ft have "sweep ps ?f ?t = f s" by simp
    then show ?thesis by (simp only: sweep.simps)
  next
    case False
    with Cons.prems(3) have mem: "s \<in> set ps" by simp
    have "\<not> prefix (failed_name s0) s" using Cons.prems(2,3) by auto
    moreover have "\<not> prefix s0 s"
      using Cons.prems(5) False by (auto simp: strict_prefix_def)
    ultimately have same: "?f s = f s" by (simp add: moved_def)
    with Cons.prems(4) have nn: "?f s \<noteq> None" by simp
    have "sweep ps ?f (failed_name s) = ?f s"
      using Cons.prems(1,5) by (intro Cons.IH [of ?f] N mem nn) simp_all
    with same show ?thesis by (simp only: sweep.simps)
  qed
qed

text \<open>
  C9 (as amended). Let the registered directories of a task be plain names, none of
  them at or below the \<^verbatim>\<open>.failed\<close> name of a registered directory. When the failure
  handler returns, a second application returns too and changes nothing. After it no
  registered directory \<open>d\<close> exists under its own name, no \<open>d.failed.failed\<close> has come
  into being, and every \<open>d\<close> that existed and lies below no other registered directory
  is found at \<open>d.failed\<close>.
\<close>

theorem on_failure_idempotent:
  assumes "output_dir self = Some ds"
    and "\<forall>d\<in>set ds. plain d"
    and "\<forall>d\<in>set ds. \<forall>d'\<in>set ds.
           \<not> prefix (place (cwd fs) (d' @ ''.failed'')) (place (cwd fs) d)"
    and "on_failure self fs = Inr fs1"
  shows "on_failure self fs1 = Inr fs1 \<and>
         (\<forall>d\<in>set ds.
            \<not> exists fs1 d \<and>
            (\<not> exists fs (d @ ''.failed.failed'') \<longrightarrow> \<not> exists fs1 (d @ ''.failed.failed'')) \<and>
            (exists fs d \<and> (\<forall>d'\<in>set ds. \<not> strict_prefix (place (cwd fs) d') (place (cwd fs) d))
               \<longrightarrow> nodes fs1 (place (cwd fs) (d @ ''.failed'')) = nodes fs (place (cwd fs) d)))"
proof -
  let ?L = "place (cwd fs)"
  let ?ps = "map ?L ds"
  have m: "mark_failed ds fs = Inr fs1"
    using assms(1,4) by (simp add: on_failure_def split: if_splits)
  from mark_failed_sweep [OF assms(2) m]
  have c: "cwd fs1 = cwd fs" and n: "nodes fs1 = sweep ?ps (nodes fs)" by simp_all
  have ne: "\<forall>s\<in>set ?ps. s \<noteq> []" using assms(2) by (simp add: place_nonempty)
  have N: "\<forall>s\<in>set ?ps. \<forall>s'\<in>set ?ps. \<not> prefix (failed_name s') s"
    using assms(2,3) by (simp add: place_failed)
  have gone: "\<forall>d\<in>set ds. \<not> exists fs1 d"
    using sweep_gone [OF ne N, of "nodes fs"] assms(2) by (simp add: exists_plain c n)
  have again: "on_failure self fs1 = Inr fs1"
  proof -
    have "mark_failed ds fs' = Inr fs'" if "\<forall>d\<in>set ds. \<not> exists fs' d" for fs'
      using that by (induction ds) simp_all
    with gone assms(1) show ?thesis by (simp add: on_failure_def)
  qed
  have single: "\<not> exists fs1 (d @ ''.failed.failed'')"
    if d: "d \<in> set ds" and x: "\<not> exists fs (d @ ''.failed.failed'')" for d
  proof -
    have pd: "plain d" using assms(2) d by simp
    have pf: "plain (d @ ''.failed'')" using pd by (rule plain_failed)
    have pff: "plain (d @ ''.failed.failed'')" using plain_failed [OF pf] by simp
    have nd: "?L d \<noteq> []" using pd by (rule place_nonempty)
    have nf: "failed_name (?L d) \<noteq> []" by (simp add: failed_name_def)
    have Lff: "?L (d @ ''.failed.failed'') = failed_name (failed_name (?L d))"
      using place_failed [OF pf, of "cwd fs"] place_failed [OF pd, of "cwd fs"] by simp
    have "\<not> prefix (failed_name s') (failed_name (failed_name (?L d)))"
      if s': "s' \<in> set ?ps" for s'
    proof
      assume pre: "prefix (failed_name s') (failed_name (failed_name (?L d)))"
      have ne': "s' \<noteq> []" using ne s' by auto
      have fne: "failed_name s' \<noteq> []" by (simp add: failed_name_def)
      show False
      proof (cases "failed_name s' = failed_name (failed_name (?L d))")
        case True
        then have "s' = failed_name (?L d)" by (rule failed_name_inject [OF ne' nf])
        then have "prefix (failed_name (?L d)) s'" by simp
        with N s' d show False by auto
      next
        case False
        with pre have "strict_prefix (failed_name s') (failed_name (failed_name (?L d)))"
          by (simp add: strict_prefix_def)
        then have "strict_prefix (failed_name s') (?L d)"
          by (simp add: strict_prefix_failed_name [OF nf] strict_prefix_failed_name [OF nd])
        then have "prefix (failed_name s') (?L d)" by (simp add: strict_prefix_def)
        with N s' d show False by auto
      qed
    qed
    then have "sweep ?ps (nodes fs) (failed_name (failed_name (?L d))) = None"
      using x by (intro sweep_not_created) (auto simp: exists_plain [OF pff] Lff)
    then show ?thesis by (simp add: exists_plain [OF pff] c n Lff)
  qed
  have moved_to: "nodes fs1 (?L (d @ ''.failed'')) = nodes fs (?L d)"
    if d: "d \<in> set ds" and x: "exists fs d"
      and top: "\<forall>d'\<in>set ds. \<not> strict_prefix (?L d') (?L d)" for d
  proof -
    have pd: "plain d" using assms(2) d by simp
    have "sweep ?ps (nodes fs) (failed_name (?L d)) = nodes fs (?L d)"
      using d x top by (intro sweep_moved [OF ne N]) (auto simp: exists_plain [OF pd])
    then show ?thesis by (simp add: n place_failed [OF pd])
  qed
  from again gone single moved_to show ?thesis by blast
qed

theorem on_failure_idempotent_witness:
  "(case on_failure \<lparr>output_dir = Some [''data/out'', ''log''], output_dirs = None\<rparr>
           \<lparr>cwd = [],
            nodes = [[''data''] \<mapsto> Dir, [''data'', ''out''] \<mapsto> Dir,
                     [''data'', ''out'', ''a.txt''] \<mapsto> File, [''log''] \<mapsto> Dir]\<rparr> of
      Inl e \<Rightarrow> False
    | Inr fs1 \<Rightarrow>
        on_failure \<lparr>output_dir = Some [''data/out'', ''log''], output_dirs = None\<rparr> fs1
          = Inr fs1 \<and>
        \<not> exists fs1 ''data/out'' \<and> \<not> exists fs1 ''log'' \<and>
        nodes fs1 [''data'', ''out.failed''] = Some Dir \<and>
        nodes fs1 [''log.failed''] = Some Dir \<and>
        \<not> exists fs1 ''data/out.failed.failed'')"
proof -
  let ?self = "\<lparr>output_dir = Some [''data/out'', ''log''], output_dirs = None\<rparr>"
  let ?fs = "\<lparr>cwd = [],
            nodes = [[''data''] \<mapsto> Dir, [''data'', ''out''] \<mapsto> Dir,
                     [''data'', ''out'', ''a.txt''] \<mapsto> File, [''log''] \<mapsto> Dir]\<rparr>"
  have pl: "plain ''data/out''" "plain ''log''"
    by (simp_all add: plain_def final_def)
  have pc: "place [] ''data/out'' = [''data'', ''out'']" "place [] ''log'' = [''log'']"
    "place [] ''data/out.failed'' = [''data'', ''out.failed'']"
    "place [] ''log.failed'' = [''log.failed'']"
    by (simp_all add: place_def parts_def)
  have h1: "output_dir ?self = Some [''data/out'', ''log'']" by simp
  have h2: "\<forall>d\<in>set [''data/out'', ''log'']. plain d" using pl by simp
  have h3: "\<forall>d\<in>set [''data/out'', ''log'']. \<forall>d'\<in>set [''data/out'', ''log''].
              \<not> prefix (place (cwd ?fs) (d' @ ''.failed'')) (place (cwd ?fs) d)"
    by (simp add: pc)
  obtain fs1 where h4: "on_failure ?self ?fs = Inr fs1"
    by (simp add: on_failure_def rename_def fs_defs)
  have x: "exists ?fs ''data/out''" "exists ?fs ''log''"
    "\<not> exists ?fs ''data/out.failed.failed''"
    by (simp_all add: fs_defs)
  from on_failure_idempotent [OF h1 h2 h3 h4] x pc show ?thesis
    by (simp add: h4)
qed

text \<open>
  The claim as stated fails for a task that registers \<^verbatim>\<open>out\<close> and then
  \<^verbatim>\<open>out.failed\<close>: one pass of the handler moves \<^verbatim>\<open>out\<close> to \<^verbatim>\<open>out.failed\<close> and
  then that directory to \<^verbatim>\<open>out.failed.failed\<close>, and so it stays after a second pass.
\<close>

theorem double_suffix_counterexample:
  "(case setup_output_dir new_task_state ''out'' \<lparr>cwd = [], nodes = (\<lambda>p. None)\<rparr> of
      Inl e \<Rightarrow> False
    | Inr (t1, fs1) \<Rightarrow>
        (case setup_output_dir t1 ''out.failed'' fs1 of
           Inl e \<Rightarrow> False
         | Inr (self, fs2) \<Rightarrow>
             output_dir self = Some [''out'', ''out.failed''] \<and>
             (case on_failure self fs2 of
                Inl e \<Rightarrow> False
              | Inr fs3 \<Rightarrow>
                  (case on_failure self fs3 of
                     Inl e \<Rightarrow> False
                   | Inr fs4 \<Rightarrow>
                       exists fs4 ''out.failed.failed'' \<and> \<not> exists fs4 ''out.failed''
                       \<and> \<not> exists fs4 ''out''))))"
  by (simp add: setup_output_dir_def new_task_state_def makedirs_def on_failure_def
        rename_def fs_defs)

end
